theory Spec2Isabelle
  imports Complex_Main "HOL-Library.Word" "HOL-Library.Sublist"
begin

section \<open>Unstructured resource documents\<close>

text \<open>
  The dynamic client decodes a resource into \<^verbatim>\<open>map[string]interface{}\<close>. The values of
  such a document are the JSON types the decoder produces: nil, bool, int64, float64,
  string, \<^verbatim>\<open>[]interface{}\<close> and \<^verbatim>\<open>map[string]interface{}\<close>. A Go map is a partial
  function from keys to values; a nil map reads like the empty one.
\<close>

datatype jval =
    JNull
  | JBool bool
  | JInt "64 word"
  | JFloat real
  | JString string
  | JSlice "jval list"
  | JMap "string \<Rightarrow> jval option"

type_synonym jobj = "string \<Rightarrow> jval option"

text \<open>
  Go \<^verbatim>\<open>error\<close> values of the wait engine. \<open>GetError\<close> carries the message of a failed
  \<^verbatim>\<open>Get\<close>; \<open>AccessorError\<close> is the error of the \<^verbatim>\<open>unstructured.Nested*\<close> helpers (the
  field and the value of the wrong type); \<open>UnsupportedKind\<close> and \<open>TimeoutError\<close> carry
  \<^verbatim>\<open>m.kind\<close>, as the two \<^verbatim>\<open>fmt.Errorf\<close> calls do; \<open>ContextError\<close> is \<^verbatim>\<open>ctx.Err()\<close>.
\<close>

datatype ctx_err = Canceled | DeadlineExceeded

datatype error =
    GetError string
  | AccessorError string jval
  | UnsupportedKind string
  | TimeoutError string
  | ContextError ctx_err

text \<open>The outcome of \<^verbatim>\<open>dynamicClient.Resource(gvr).Namespace(ns).Get(ctx, name, ...)\<close>:
  the error message, or the fetched \<^verbatim>\<open>obj.Object\<close>.\<close>

type_synonym get_result = "string + jobj"

subsection \<open>The accessors of \<^verbatim>\<open>k8s.io/apimachinery/.../unstructured\<close>, for one field\<close>

text \<open>
  \<^verbatim>\<open>NestedFieldNoCopy(obj, field)\<close> returns \<^verbatim>\<open>(nil, false, nil)\<close> when the key is absent and
  \<^verbatim>\<open>(val, true, nil)\<close> otherwise. \<^verbatim>\<open>NestedMap\<close>, \<^verbatim>\<open>NestedSlice\<close> and \<^verbatim>\<open>NestedString\<close> then
  type-assert the value and return \<^verbatim>\<open>(zero, false, err)\<close> when the assertion fails (also
  for a nil value). Each returns the triple (value, found, err) as in Go. The deep copy
  that \<^verbatim>\<open>NestedMap\<close> and \<^verbatim>\<open>NestedSlice\<close> make is the identity on values.
\<close>

definition NestedMap :: "jobj \<Rightarrow> string \<Rightarrow> jobj \<times> bool \<times> error option" where
  "NestedMap obj field =
     (case obj field of
        None \<Rightarrow> (Map.empty, False, None)
      | Some (JMap m) \<Rightarrow> (m, True, None)
      | Some v \<Rightarrow> (Map.empty, False, Some (AccessorError field v)))"

definition NestedSlice :: "jobj \<Rightarrow> string \<Rightarrow> jval list \<times> bool \<times> error option" where
  "NestedSlice obj field =
     (case obj field of
        None \<Rightarrow> ([], False, None)
      | Some (JSlice xs) \<Rightarrow> (xs, True, None)
      | Some v \<Rightarrow> ([], False, Some (AccessorError field v)))"

definition NestedString :: "jobj \<Rightarrow> string \<Rightarrow> string \<times> bool \<times> error option" where
  "NestedString obj field =
     (case obj field of
        None \<Rightarrow> ('''', False, None)
      | Some (JString s) \<Rightarrow> (s, True, None)
      | Some v \<Rightarrow> ('''', False, Some (AccessorError field v)))"

section \<open>Status prober\<close>

subsection \<open>\<^verbatim>\<open>checkResourceReady\<close>\<close>

text \<open>The \<^verbatim>\<open>for _, cond := range conditions\<close> loop of \<^verbatim>\<open>checkResourceReady\<close>: an entry that
  is not a map is skipped (\<^verbatim>\<open>continue\<close>); the first entry with type \<^verbatim>\<open>Ready\<close> and status
  \<^verbatim>\<open>True\<close> returns true; the end of the list returns false.\<close>

fun readyLoop :: "jval list \<Rightarrow> bool" where
  "readyLoop [] = False"
| "readyLoop (JMap condMap # conds) =
     (let condType = fst (NestedString condMap ''type'');
          condStatus = fst (NestedString condMap ''status'')
      in if condType = ''Ready'' \<and> condStatus = ''True'' then True
         else readyLoop conds)"
| "readyLoop (_ # conds) = readyLoop conds"

text \<open>\<^verbatim>\<open>checkResourceReady\<close>, given the outcome of its \<^verbatim>\<open>Get\<close>. It returns the pair
  \<^verbatim>\<open>(bool, error)\<close>; \<open>None\<close> is the nil error.\<close>

definition checkResourceReady :: "get_result \<Rightarrow> bool \<times> error option" where
  "checkResourceReady r =
     (case r of
        Inl msg \<Rightarrow> (False, Some (GetError msg))
      | Inr obj \<Rightarrow>
          (let (status, found, err) = NestedMap obj ''status'' in
           if \<not> found \<or> err \<noteq> None then (False, err)
           else
             (let (conditions, found, err) = NestedSlice status ''conditions'' in
              if \<not> found \<or> err \<noteq> None then (False, err)
              else (readyLoop conditions, None))))"

subsection \<open>What the specification says about readiness\<close>

text \<open>The specification's words: the conditions list at \<^verbatim>\<open>status.conditions\<close> of a
  document, when the document has one, and "a condition whose type equals Ready and
  whose status equals True".\<close>

definition conditions_of :: "jobj \<Rightarrow> jval list option" where
  "conditions_of obj =
     (case obj ''status'' of
        Some (JMap st) \<Rightarrow> (case st ''conditions'' of Some (JSlice cs) \<Rightarrow> Some cs | _ \<Rightarrow> None)
      | _ \<Rightarrow> None)"

definition is_ready_true :: "jval \<Rightarrow> bool" where
  "is_ready_true c =
     (case c of
        JMap cm \<Rightarrow> cm ''type'' = Some (JString ''Ready'') \<and> cm ''status'' = Some (JString ''True'')
      | _ \<Rightarrow> False)"

definition has_ready_true :: "jobj \<Rightarrow> bool" where
  "has_ready_true obj =
     (case conditions_of obj of None \<Rightarrow> False | Some cs \<Rightarrow> list_ex is_ready_true cs)"

text \<open>A document lacks its status sub-document when it has no \<^verbatim>\<open>status\<close> key, and lacks
  a conditions list when its status has no \<^verbatim>\<open>conditions\<close> key.\<close>

definition lacks_status_or_conditions :: "jobj \<Rightarrow> bool" where
  "lacks_status_or_conditions obj =
     (case obj ''status'' of
        None \<Rightarrow> True
      | Some (JMap st) \<Rightarrow> st ''conditions'' = None
      | Some _ \<Rightarrow> False)"

subsection \<open>\<^verbatim>\<open>getResourceStatus\<close>\<close>

text \<open>\<^verbatim>\<open>strings.Join(elems, sep)\<close>.\<close>

fun Join :: "string list \<Rightarrow> string \<Rightarrow> string" where
  "Join [] sep = ''''"
| "Join [x] sep = x"
| "Join (x # y # ys) sep = x @ sep @ Join (y # ys) sep"

text \<open>The loop of \<^verbatim>\<open>getResourceStatus\<close> over the conditions, with \<^verbatim>\<open>statusParts\<close> as
  accumulator, followed by the two returns after the loop. The three \<^verbatim>\<open>fmt.Sprintf\<close>
  calls only have \<^verbatim>\<open>%s\<close> verbs, so they are concatenations.\<close>

fun statusLoop :: "jval list \<Rightarrow> string list \<Rightarrow> string \<times> string" where
  "statusLoop [] statusParts =
     (if length statusParts = 0 then (''checking'', '''')
      else (''not ready'', Join statusParts '', ''))"
| "statusLoop (JMap condMap # conds) statusParts =
     (let condType = fst (NestedString condMap ''type'');
          condStatus = fst (NestedString condMap ''status'');
          condMessage = fst (NestedString condMap ''message'')
      in if condType = ''Ready'' then
           (if condStatus = ''True'' then (''ready'', ''Ready=True'')
            else if condMessage \<noteq> '''' then
              statusLoop conds
                (statusParts @ [condType @ ''='' @ condStatus @ '' ('' @ condMessage @ '')''])
            else statusLoop conds (statusParts @ [condType @ ''='' @ condStatus]))
         else if condStatus = ''False'' \<and> condMessage \<noteq> '''' then
           statusLoop conds
             (statusParts @ [condType @ ''='' @ condStatus @ '': '' @ condMessage])
         else statusLoop conds statusParts)"
| "statusLoop (_ # conds) statusParts = statusLoop conds statusParts"

text \<open>\<^verbatim>\<open>getResourceStatus\<close>, given the outcome of its \<^verbatim>\<open>Get\<close>. It returns the pair of
  strings that the callers name \<^verbatim>\<open>status\<close> and \<^verbatim>\<open>conditions\<close>: the coarse verdict and the
  condition summary.\<close>

definition getResourceStatus :: "get_result \<Rightarrow> string \<times> string" where
  "getResourceStatus r =
     (case r of
        Inl msg \<Rightarrow> ('''', ''error getting resource: '' @ msg)
      | Inr obj \<Rightarrow>
          (let (status, found, err) = NestedMap obj ''status'' in
           if \<not> found \<or> err \<noteq> None then (''unknown'', '''')
           else
             (let (conditions, found, err) = NestedSlice status ''conditions'' in
              if \<not> found \<or> err \<noteq> None then (''no conditions'', '''')
              else statusLoop conditions [])))"

subsection \<open>What the specification says about the summary\<close>

text \<open>A string field of a condition, the empty string when it is missing or not a
  string.\<close>

definition field_or_empty :: "jobj \<Rightarrow> string \<Rightarrow> string" where
  "field_or_empty cm k = (case cm k of Some (JString s) \<Rightarrow> s | _ \<Rightarrow> '''')"

text \<open>The rendering of one condition in the summary, when it has one: a \<^verbatim>\<open>Ready\<close>
  condition as \<^verbatim>\<open>Ready=<status> (<message>)\<close>, the parenthesis left out for an empty
  message; another condition with status \<^verbatim>\<open>False\<close> and a message as
  \<^verbatim>\<open><type>=<status>: <message>\<close>; nothing else qualifies.\<close>

definition summary_part :: "jval \<Rightarrow> string option" where
  "summary_part c =
     (case c of
        JMap cm \<Rightarrow>
          (let t = field_or_empty cm ''type''; s = field_or_empty cm ''status'';
               m = field_or_empty cm ''message''
           in if t = ''Ready'' then
                Some (if m = '''' then ''Ready='' @ s else ''Ready='' @ s @ '' ('' @ m @ '')'')
              else if s = ''False'' \<and> m \<noteq> '''' then Some (t @ ''='' @ s @ '': '' @ m)
              else None)
      | _ \<Rightarrow> None)"

text \<open>The summary parts of a conditions list, in the order of the list.\<close>

definition summary_parts :: "jval list \<Rightarrow> string list" where
  "summary_parts cs = List.map_filter summary_part cs"

subsection \<open>Malformed condition data\<close>

text \<open>A condition with its three string fields made explicit: a missing field, or one
  that is not a string, becomes the empty string. \<open>normalise_conditions\<close> drops the
  entries of a conditions list that are not maps and makes the fields of the others
  explicit.\<close>

definition explicit_fields :: "jobj \<Rightarrow> jval" where
  "explicit_fields cm =
     JMap [''type'' \<mapsto> JString (field_or_empty cm ''type''),
           ''status'' \<mapsto> JString (field_or_empty cm ''status''),
           ''message'' \<mapsto> JString (field_or_empty cm ''message'')]"

fun normalise_conditions :: "jval list \<Rightarrow> jval list" where
  "normalise_conditions [] = []"
| "normalise_conditions (JMap cm # cs) = explicit_fields cm # normalise_conditions cs"
| "normalise_conditions (_ # cs) = normalise_conditions cs"

text \<open>The document whose status holds exactly the conditions list \<open>cs\<close>.\<close>

definition doc_with_conditions :: "jval list \<Rightarrow> jobj" where
  "doc_with_conditions cs = [''status'' \<mapsto> JMap [''conditions'' \<mapsto> JSlice cs]]"

subsection \<open>Example documents\<close>

definition cond :: "string \<Rightarrow> string \<Rightarrow> string \<Rightarrow> jval" where
  "cond t s m = JMap [''type'' \<mapsto> JString t, ''status'' \<mapsto> JString s, ''message'' \<mapsto> JString m]"

definition ready_doc :: jobj where
  "ready_doc =
     doc_with_conditions
       [JString ''junk'', cond ''Healthy'' ''False'' ''probe failed'', cond ''Ready'' ''True'' ''ok'']"

definition failing_doc :: jobj where
  "failing_doc =
     doc_with_conditions
       [cond ''Healthy'' ''False'' ''probe failed'', cond ''Ready'' ''False'' ''install failed'']"

definition malformed_conditions :: "jval list" where
  "malformed_conditions =
     [JNull, JMap [''type'' \<mapsto> JString ''Ready'', ''status'' \<mapsto> JInt 1],
      JMap [''type'' \<mapsto> JString ''Healthy'', ''status'' \<mapsto> JString ''False'',
            ''message'' \<mapsto> JString ''probe failed'']]"

definition malformed_doc :: jobj where
  "malformed_doc = doc_with_conditions malformed_conditions"

section \<open>Event deduplicator\<close>

text \<open>The fields of a \<^verbatim>\<open>corev1.Event\<close> that \<^verbatim>\<open>checkEvents\<close> reads.\<close>

record Event =
  Reason :: string
  Type :: string
  Message :: string

text \<open>The fields of \<^verbatim>\<open>Monitor\<close> that are plain data; the clients, the context and the
  mutex have no counterpart here (\<^verbatim>\<open>checkEvents\<close> runs on the single \<^verbatim>\<open>Watch\<close> goroutine).\<close>

record Monitor =
  kind :: string
  name :: string
  namespace :: string
  lastHash :: string

text \<open>A call \<^verbatim>\<open>output.PrintEvent(reason, message, isWarning)\<close>.\<close>

type_synonym notice = "string \<times> string \<times> bool"

text \<open>The first loop of \<^verbatim>\<open>checkEvents\<close>:
  \<^verbatim>\<open>for i := len(items) - 1; i >= 0 && i >= len(items)-3; i-- { hash += Sprintf("%s:%s:%s", ...) }\<close>,
  with the loop variable a signed integer as in Go.\<close>

function hashLoop :: "Event list \<Rightarrow> int \<Rightarrow> string \<Rightarrow> string" where
  "hashLoop items i hash =
     (if i \<ge> 0 \<and> i \<ge> int (length items) - 3 then
        (let evt = items ! nat i
         in hashLoop items (i - 1) (hash @ Reason evt @ '':'' @ Type evt @ '':'' @ Message evt))
      else hash)"
  by pat_completeness auto
termination
  by (relation "measure (\<lambda>(items, i, hash). nat (i + 1))") auto

text \<open>The second loop:
  \<^verbatim>\<open>for i := len(items) - 1; i >= 0 && shown < 2; i-- { ...; PrintEvent(...); shown++ }\<close>.
  \<^verbatim>\<open>corev1.EventTypeWarning\<close> is the string \<^verbatim>\<open>Warning\<close>.\<close>

function showLoop :: "Event list \<Rightarrow> int \<Rightarrow> nat \<Rightarrow> notice list \<Rightarrow> notice list" where
  "showLoop items i shown out =
     (if i \<ge> 0 \<and> shown < 2 then
        (let evt = items ! nat i;
             isWarning = (Type evt = ''Warning'' \<or> Reason evt = ''HealthCheckFailed'' \<or>
                          Reason evt = ''DependencyNotReady'')
         in showLoop items (i - 1) (shown + 1) (out @ [(Reason evt, Message evt, isWarning)]))
      else out)"
  by pat_completeness auto
termination
  by (relation "measure (\<lambda>(items, i, shown, out). nat (i + 1))") auto

declare hashLoop.simps [simp del] showLoop.simps [simp del]

text \<open>\<^verbatim>\<open>checkEvents\<close>, given the outcome of the \<^verbatim>\<open>Events(...).List\<close> call (an error message or
  \<^verbatim>\<open>events.Items\<close>). The function has no result in Go; the model returns the monitor
  after the call and the notices printed.\<close>

definition checkEvents :: "Monitor \<Rightarrow> string + Event list \<Rightarrow> Monitor \<times> notice list" where
  "checkEvents m r =
     (case r of
        Inl err \<Rightarrow> (m, [])
      | Inr items \<Rightarrow>
          if length items = 0 then (m, [])
          else
            (let hash = hashLoop items (int (length items) - 1) '''' in
             if hash \<noteq> lastHash m then
               (m\<lparr>lastHash := hash\<rparr>, showLoop items (int (length items) - 1) 0 [])
             else (m, [])))"

subsection \<open>What the specification says about the fingerprint\<close>

text \<open>One of the three fields of an event is changed and the other two are kept.\<close>

definition one_field_changed :: "Event \<Rightarrow> Event \<Rightarrow> bool" where
  "one_field_changed e e' =
     ((Reason e' \<noteq> Reason e \<and> Type e' = Type e \<and> Message e' = Message e) \<or>
      (Reason e' = Reason e \<and> Type e' \<noteq> Type e \<and> Message e' = Message e) \<or>
      (Reason e' = Reason e \<and> Type e' = Type e \<and> Message e' \<noteq> Message e))"

definition notice_of :: "Event \<Rightarrow> notice" where
  "notice_of evt =
     (Reason evt, Message evt,
      Type evt = ''Warning'' \<or> Reason evt = ''HealthCheckFailed'' \<or>
      Reason evt = ''DependencyNotReady'')"

text \<open>The text that one event contributes to the hash.\<close>

definition triple :: "Event \<Rightarrow> string" where
  "triple evt = Reason evt @ '':'' @ Type evt @ '':'' @ Message evt"

subsection \<open>Example events\<close>

definition example_monitor :: Monitor where
  "example_monitor =
     \<lparr>kind = ''helmrelease'', name = ''app'', namespace = ''flux-system'', lastHash = ''''\<rparr>"

definition example_events :: "Event list" where
  "example_events =
     [\<lparr>Reason = ''Progressing'', Type = ''Normal'', Message = ''started''\<rparr>,
      \<lparr>Reason = ''ArtifactFailed'', Type = ''Warning'', Message = ''no artifact''\<rparr>,
      \<lparr>Reason = ''HealthCheckFailed'', Type = ''Normal'', Message = ''timeout''\<rparr>,
      \<lparr>Reason = ''Progressing'', Type = ''Normal'', Message = ''retrying''\<rparr>]"

definition changed_event :: Event where
  "changed_event = \<lparr>Reason = ''HealthCheckFailed'', Type = ''Normal'', Message = ''timeout again''\<rparr>"

text \<open>A list whose last event is replaced by one with another reason and another type,
  but the same text \<^verbatim>\<open>reason:type:message\<close>.\<close>

definition colliding_events :: "Event list" where
  "colliding_events =
     [\<lparr>Reason = ''Progressing'', Type = ''Normal'', Message = ''started''\<rparr>,
      \<lparr>Reason = ''a:b'', Type = ''c'', Message = ''retrying''\<rparr>]"

definition collided_event :: Event where
  "collided_event = \<lparr>Reason = ''a'', Type = ''b:c'', Message = ''retrying''\<rparr>"

section \<open>Interrupt coordinator\<close>

text \<open>The two atomics of \<^verbatim>\<open>main\<close>: \<^verbatim>\<open>lastInterruptNano\<close> (\<^verbatim>\<open>atomic.Int64\<close>) and
  \<^verbatim>\<open>interruptCount\<close> (\<^verbatim>\<open>atomic.Int32\<close>), both zero at the start.\<close>

record interrupt_state =
  lastInterruptNano :: "64 word"
  interruptCount :: "32 word"

definition initial_interrupt_state :: interrupt_state where
  "initial_interrupt_state = \<lparr>lastInterruptNano = 0, interruptCount = 0\<rparr>"

text \<open>\<^verbatim>\<open>interruptWindowNano = int64(2 * time.Second)\<close>.\<close>

definition interruptWindowNano :: "64 word" where
  "interruptWindowNano = 2000000000"

text \<open>What the handler does after updating the state: \<^verbatim>\<open>cancel()\<close> of the shared context,
  \<^verbatim>\<open>os.Exit(code)\<close>, or neither (when the count is neither 1 nor at least 2).\<close>

datatype interrupt_action = Cancel | Exit int | NoAction

text \<open>One iteration of the handler goroutine's loop, for a signal received when
  \<^verbatim>\<open>time.Now().UnixNano()\<close> is \<open>nowNano\<close>. The subtraction and the increment wrap around,
  and both comparisons are signed.\<close>

definition handleSignal :: "interrupt_state \<Rightarrow> 64 word \<Rightarrow> interrupt_state \<times> interrupt_action" where
  "handleSignal s nowNano =
     (let lastNano = lastInterruptNano s;
          count = (if sint (nowNano - lastNano) < sint interruptWindowNano
                   then interruptCount s + 1 else 1);
          s' = \<lparr>lastInterruptNano = nowNano, interruptCount = count\<rparr>
      in if count = 1 then (s', Cancel)
         else if 2 \<le> sint count then (s', Exit 130)
         else (s', NoAction))"

text \<open>The handler loop over the signals received, one clock reading per signal: the
  state reached, or \<open>None\<close> once \<^verbatim>\<open>os.Exit\<close> has ended the process.\<close>

fun handleSignals :: "interrupt_state \<Rightarrow> 64 word list \<Rightarrow> interrupt_state option" where
  "handleSignals s [] = Some s"
| "handleSignals s (nowNano # rest) =
     (case handleSignal s nowNano of
        (s', Exit code) \<Rightarrow> None
      | (s', _) \<Rightarrow> handleSignals s' rest)"

section \<open>Resource locator and wait engine\<close>

text \<open>\<^verbatim>\<open>schema.GroupVersionResource\<close>.\<close>

record GroupVersionResource =
  Group :: string
  Version :: string
  Resource :: string

text \<open>The answer of the API server to a \<^verbatim>\<open>Get\<close> of the monitored name and namespace, for
  each coordinates, at one moment.\<close>

type_synonym api = "GroupVersionResource \<Rightarrow> get_result"

text \<open>What the wait engine does to the outside: a \<^verbatim>\<open>Get\<close> against some coordinates, marked
  with the function that makes it (\<^verbatim>\<open>getResourceGVR\<close>, \<^verbatim>\<open>checkResourceReady\<close> or
  \<^verbatim>\<open>getResourceStatus\<close>), and a line printed with \<^verbatim>\<open>output.PrintStatus\<close>.\<close>

datatype probe = ResolveProbe | ReadyProbe | SummaryProbe

datatype effect = ApiGet probe GroupVersionResource | PrintStatus string

definition gvrV2 :: GroupVersionResource where
  "gvrV2 = \<lparr>Group = ''helm.toolkit.fluxcd.io'', Version = ''v2'', Resource = ''helmreleases''\<rparr>"

definition gvrV2beta1 :: GroupVersionResource where
  "gvrV2beta1 =
     \<lparr>Group = ''helm.toolkit.fluxcd.io'', Version = ''v2beta1'', Resource = ''helmreleases''\<rparr>"

text \<open>\<^verbatim>\<open>getResourceGVR\<close>: the \<^verbatim>\<open>Get\<close> calls made and the pair \<^verbatim>\<open>(gvr, error)\<close> as a sum. The
  \<^verbatim>\<open>switch\<close> on \<^verbatim>\<open>m.kind\<close> is the chain of comparisons, in the order of its cases.\<close>

definition getResourceGVR :: "Monitor \<Rightarrow> api \<Rightarrow> effect list \<times> (error + GroupVersionResource)" where
  "getResourceGVR m cluster =
     (if kind m = ''kustomization'' then
        ([], Inr \<lparr>Group = ''kustomize.toolkit.fluxcd.io'', Version = ''v1'',
                  Resource = ''kustomizations''\<rparr>)
      else if kind m = ''helmrelease'' then
        ([ApiGet ResolveProbe gvrV2],
         (case cluster gvrV2 of Inr obj \<Rightarrow> Inr gvrV2 | Inl err \<Rightarrow> Inr gvrV2beta1))
      else if kind m = ''git'' \<or> kind m = ''gitrepository'' then
        ([], Inr \<lparr>Group = ''source.toolkit.fluxcd.io'', Version = ''v1'',
                  Resource = ''gitrepositories''\<rparr>)
      else if kind m = ''oci'' \<or> kind m = ''ocirepository'' then
        ([], Inr \<lparr>Group = ''source.toolkit.fluxcd.io'', Version = ''v1beta2'',
                  Resource = ''ocirepositories''\<rparr>)
      else ([], Inl (UnsupportedKind (kind m))))"

text \<open>
  One iteration of the \<^verbatim>\<open>for { select { ... } }\<close> loop of \<^verbatim>\<open>WaitForReady\<close> is decided by
  the case that \<^verbatim>\<open>select\<close> takes, and by what the clock and the API server answer during
  that iteration:
  \<^item> \<open>CtxDone e\<close>: \<^verbatim>\<open>ctx.Done()\<close>, with \<^verbatim>\<open>ctx.Err()\<close>;
  \<^item> \<open>StatusTick t1 t2 cluster\<close>: \<^verbatim>\<open>statusTicker.C\<close>; \<open>t1\<close> and \<open>t2\<close> are the clock readings of
    \<^verbatim>\<open>time.Since(startTime)\<close> and \<^verbatim>\<open>time.Until(deadline)\<close>;
  \<^item> \<open>FastTick t1 cluster t2 t3\<close>: \<^verbatim>\<open>ticker.C\<close>; \<open>t1\<close> is the reading of
    \<^verbatim>\<open>time.Now().After(deadline)\<close>, \<open>t2\<close> that of \<^verbatim>\<open>time.Since(lastStatusTime)\<close> and \<open>t3\<close> that
    of \<^verbatim>\<open>lastStatusTime = time.Now()\<close>.
  Instants and durations are integers, in nanoseconds.
\<close>

datatype tick =
    CtxDone ctx_err
  | StatusTick int int api
  | FastTick int api int int

text \<open>The result of the loop on a finite sequence of iterations: it has returned (the nil
  error is \<open>None\<close>), or it is still waiting when the sequence ends.\<close>

datatype wait_result = Returned "error option" | StillWaiting

text \<open>Text formatting that is not modelled and taken as given: \<^verbatim>\<open>formatDuration\<close> (floating
  point formatting of a duration) and the \<^verbatim>\<open>%v\<close> rendering of an error.\<close>

record formatting =
  formatDuration :: "int \<Rightarrow> string"
  errorText :: "error \<Rightarrow> string"

text \<open>\<^verbatim>\<open>time.Second\<close>, in nanoseconds.\<close>

definition Second :: int where
  "Second = 1000000000"

text \<open>The effects of an iteration followed by the rest of the run.\<close>

definition after :: "effect list \<Rightarrow> effect list \<times> wait_result \<Rightarrow> effect list \<times> wait_result" where
  "after effs r = (effs @ fst r, snd r)"

text \<open>The loop of \<^verbatim>\<open>WaitForReady\<close>, with the local variables \<^verbatim>\<open>gvr\<close>, \<^verbatim>\<open>startTime\<close>,
  \<^verbatim>\<open>deadline\<close> and \<^verbatim>\<open>lastStatusTime\<close>.\<close>

fun waitLoop ::
  "formatting \<Rightarrow> Monitor \<Rightarrow> GroupVersionResource \<Rightarrow> int \<Rightarrow> int \<Rightarrow> int \<Rightarrow> tick list \<Rightarrow>
   effect list \<times> wait_result" where
  "waitLoop f m gvr startTime deadline lastStatusTime [] = ([], StillWaiting)"
| "waitLoop f m gvr startTime deadline lastStatusTime (CtxDone e # rest) =
     ([], Returned (Some (ContextError e)))"
| "waitLoop f m gvr startTime deadline lastStatusTime (StatusTick t1 t2 cluster # rest) =
     (let elapsed = t1 - startTime;
          remaining = deadline - t2;
          (status, conditions) = getResourceStatus (cluster gvr)
      in after
           (ApiGet SummaryProbe gvr #
            (if status \<noteq> '''' then
               PrintStatus (''Still waiting... (elapsed: '' @ formatDuration f elapsed @
                            '', remaining: '' @ formatDuration f remaining @ '')'') #
               (if conditions \<noteq> '''' then [PrintStatus (''Current status: '' @ conditions)]
                else [])
             else []))
           (waitLoop f m gvr startTime deadline lastStatusTime rest))"
| "waitLoop f m gvr startTime deadline lastStatusTime (FastTick t1 cluster t2 t3 # rest) =
     (if t1 > deadline then
        (let (status, conditions) = getResourceStatus (cluster gvr)
         in (ApiGet SummaryProbe gvr #
             (if conditions \<noteq> '''' then
                [PrintStatus (''Timeout reached. Last known status: '' @ conditions)]
              else []),
             Returned (Some (TimeoutError (kind m)))))
      else
        (let (ready, err) = checkResourceReady (cluster gvr) in
         case err of
           Some e \<Rightarrow>
             if t2 - lastStatusTime > 10 * Second then
               after [ApiGet ReadyProbe gvr,
                      PrintStatus (''Unable to check status: '' @ errorText f e @ '' (will retry)'')]
                 (waitLoop f m gvr startTime deadline t3 rest)
             else
               after [ApiGet ReadyProbe gvr]
                 (waitLoop f m gvr startTime deadline lastStatusTime rest)
         | None \<Rightarrow>
             if ready then ([ApiGet ReadyProbe gvr], Returned None)
             else
               after [ApiGet ReadyProbe gvr]
                 (waitLoop f m gvr startTime deadline lastStatusTime rest)))"

text \<open>\<^verbatim>\<open>WaitForReady\<close>. \<open>t_deadline\<close>, \<open>t_start\<close> and \<open>t_last\<close> are the clock readings of the
  three \<^verbatim>\<open>time.Now()\<close> calls before the loop, \<open>cluster\<close> the API server when the coordinates
  are resolved, and \<open>ticks\<close> the iterations of the loop.\<close>

definition WaitForReady ::
  "formatting \<Rightarrow> Monitor \<Rightarrow> int \<Rightarrow> int \<Rightarrow> int \<Rightarrow> api \<Rightarrow> int \<Rightarrow> tick list \<Rightarrow>
   effect list \<times> wait_result" where
  "WaitForReady f m timeout t_deadline t_start cluster t_last ticks =
     (let deadline = t_deadline + timeout;
          startTime = t_start;
          (effs, r) = getResourceGVR m cluster
      in case r of
           Inl err \<Rightarrow> (effs, Returned (Some err))
         | Inr gvr \<Rightarrow>
             (let lastStatusTime = t_last
              in after effs (waitLoop f m gvr startTime deadline lastStatusTime ticks)))"

subsection \<open>Observations on a run\<close>

text \<open>The line that reports a failed readiness probe.\<close>

definition is_error_report :: "effect \<Rightarrow> bool" where
  "is_error_report eff =
     (case eff of PrintStatus s \<Rightarrow> prefix ''Unable to check status: '' s | _ \<Rightarrow> False)"

text \<open>An iteration in which the readiness probe would fail: a fast tick for which
  \<^verbatim>\<open>checkResourceReady\<close> returns an error. The other iterations are not constrained.\<close>

definition probe_fails :: "GroupVersionResource \<Rightarrow> tick \<Rightarrow> bool" where
  "probe_fails gvr t =
     (case t of FastTick t1 cluster t2 t3 \<Rightarrow> snd (checkResourceReady (cluster gvr)) \<noteq> None
      | _ \<Rightarrow> True)"

text \<open>The two clock readings of the error path of an iteration lie in the ten seconds
  that start at \<open>T\<close>.\<close>

definition in_window :: "int \<Rightarrow> tick \<Rightarrow> bool" where
  "in_window T t =
     (case t of
        FastTick t1 cluster t2 t3 \<Rightarrow>
          T \<le> t2 \<and> t2 \<le> T + 10 * Second \<and> T \<le> t3 \<and> t3 \<le> T + 10 * Second
      | _ \<Rightarrow> True)"

text \<open>An iteration of the slow status timer.\<close>

definition is_status_tick :: "tick \<Rightarrow> bool" where
  "is_status_tick t = (case t of StatusTick t1 t2 cluster \<Rightarrow> True | _ \<Rightarrow> False)"

text \<open>The lines printed by an iteration of the status timer, from the two results of
  \<^verbatim>\<open>getResourceStatus\<close>.\<close>

definition status_lines :: "formatting \<Rightarrow> int \<Rightarrow> int \<Rightarrow> string \<times> string \<Rightarrow> effect list" where
  "status_lines f elapsed remaining sc =
     (if fst sc \<noteq> '''' then
        PrintStatus (''Still waiting... (elapsed: '' @ formatDuration f elapsed @
                     '', remaining: '' @ formatDuration f remaining @ '')'') #
        (if snd sc \<noteq> '''' then [PrintStatus (''Current status: '' @ snd sc)] else [])
      else [])"

text \<open>An iteration of the fast timer at which the deadline has passed.\<close>

definition deadline_passed :: "int \<Rightarrow> tick \<Rightarrow> bool" where
  "deadline_passed deadline t = (case t of FastTick t1 cluster t2 t3 \<Rightarrow> t1 > deadline | _ \<Rightarrow> False)"

text \<open>The kinds that \<^verbatim>\<open>getResourceGVR\<close> recognises.\<close>

definition known_kinds :: "string set" where
  "known_kinds = {''kustomization'', ''helmrelease'', ''git'', ''gitrepository'', ''oci'', ''ocirepository''}"

subsection \<open>Example runs\<close>

definition plain_formatting :: formatting where
  "plain_formatting = \<lparr>formatDuration = (\<lambda>d. ''?''), errorText = (\<lambda>e. ''error'')\<rparr>"

definition served :: "jobj \<Rightarrow> api" where
  "served obj = (\<lambda>gvr. Inr obj)"

definition unreachable :: api where
  "unreachable = (\<lambda>gvr. Inl ''connection refused'')"

definition legacy_only :: "jobj \<Rightarrow> api" where
  "legacy_only obj = (\<lambda>gvr. if gvr = gvrV2beta1 then Inr obj else Inl ''not found'')"

definition failing_ticks :: "tick list" where
  "failing_ticks =
     [FastTick (1 * Second) unreachable (11 * Second) (11 * Second),
      StatusTick (12 * Second) (12 * Second) unreachable,
      FastTick (13 * Second) unreachable (13 * Second) (13 * Second)]"

section \<open>Readiness probe: proofs\<close>

lemma NestedString_fst_eq:
  "s \<noteq> [] \<Longrightarrow> fst (NestedString m f) = s \<longleftrightarrow> m f = Some (JString s)"
  by (auto simp: NestedString_def split: option.splits jval.splits)

lemma is_ready_true_JMap:
  "is_ready_true (JMap cm) \<longleftrightarrow>
     fst (NestedString cm ''type'') = ''Ready'' \<and> fst (NestedString cm ''status'') = ''True''"
  by (simp add: is_ready_true_def NestedString_fst_eq)

lemma is_ready_true_not_map:
  "\<not> is_ready_true JNull" "\<not> is_ready_true (JBool b)" "\<not> is_ready_true (JInt i)"
  "\<not> is_ready_true (JFloat x)" "\<not> is_ready_true (JString s)" "\<not> is_ready_true (JSlice xs)"
  by (simp_all add: is_ready_true_def)

lemma readyLoop_list_ex: "readyLoop cs = list_ex is_ready_true cs"
proof (induction cs rule: readyLoop.induct)
  case 1
  show ?case by simp
next
  case (2 condMap conds)
  then show ?case
    by (auto simp: Let_def is_ready_true_JMap)
qed (simp_all add: is_ready_true_not_map)

text \<open>
  Claim C1. For every fetched document, \<^verbatim>\<open>checkResourceReady\<close> returns true exactly when
  the list at \<^verbatim>\<open>status.conditions\<close> holds a condition of type \<^verbatim>\<open>Ready\<close> with status
  \<^verbatim>\<open>True\<close>, whatever the other conditions are; and a document with no \<^verbatim>\<open>status\<close> key, or
  whose status has no \<^verbatim>\<open>conditions\<close> key, gives false and the nil error.
\<close>

theorem checkResourceReady_iff_ready_true:
  "(fst (checkResourceReady (Inr obj)) \<longleftrightarrow> has_ready_true obj) \<and>
   (lacks_status_or_conditions obj \<longrightarrow> checkResourceReady (Inr obj) = (False, None))"
  by (auto simp: checkResourceReady_def NestedMap_def NestedSlice_def has_ready_true_def
      conditions_of_def lacks_status_or_conditions_def readyLoop_list_ex
      split: option.splits jval.splits)

lemmas doc_defs = doc_with_conditions_def cond_def ready_doc_def failing_doc_def

lemmas probe_defs = checkResourceReady_def getResourceStatus_def NestedMap_def NestedSlice_def
  NestedString_def

theorem checkResourceReady_iff_ready_true_witness:
  "has_ready_true ready_doc \<and> fst (checkResourceReady (Inr ready_doc)) \<and>
   lacks_status_or_conditions Map.empty \<and> checkResourceReady (Inr Map.empty) = (False, None)"
proof -
  have a: "has_ready_true ready_doc"
    by (simp add: has_ready_true_def conditions_of_def is_ready_true_def doc_defs)
  have b: "lacks_status_or_conditions Map.empty"
    by (simp add: lacks_status_or_conditions_def)
  show ?thesis
    using a b checkResourceReady_iff_ready_true [of ready_doc]
      checkResourceReady_iff_ready_true [of Map.empty]
    by simp
qed

text \<open>A status that is present but is not a map is not a missing status: the accessor
  reports it, and the probe returns its error.\<close>

lemma checkResourceReady_status_not_a_map:
  "checkResourceReady (Inr [''status'' \<mapsto> JNull]) = (False, Some (AccessorError ''status'' JNull))"
  by (simp add: checkResourceReady_def NestedMap_def)

section \<open>Status summary and malformed conditions: proofs\<close>

lemma NestedString_fst: "fst (NestedString cm k) = field_or_empty cm k"
  by (simp add: NestedString_def field_or_empty_def split: option.splits jval.splits)

lemma is_ready_true_fields:
  "is_ready_true (JMap cm) \<longleftrightarrow>
     field_or_empty cm ''type'' = ''Ready'' \<and> field_or_empty cm ''status'' = ''True''"
  by (simp add: is_ready_true_JMap NestedString_fst)

lemma summary_parts_simps:
  "summary_parts [] = []"
  "summary_parts (c # cs) =
     (case summary_part c of None \<Rightarrow> summary_parts cs | Some p \<Rightarrow> p # summary_parts cs)"
  by (simp_all add: summary_parts_def split: option.splits)

lemma summary_part_not_map:
  "summary_part JNull = None" "summary_part (JBool b) = None" "summary_part (JInt i) = None"
  "summary_part (JFloat x) = None" "summary_part (JString s) = None"
  "summary_part (JSlice xs) = None"
  by (simp_all add: summary_part_def)

lemma statusLoop_JMap:
  "statusLoop (JMap cm # cs) acc =
     (if is_ready_true (JMap cm) then (''ready'', ''Ready=True'')
      else statusLoop cs (acc @ (case summary_part (JMap cm) of None \<Rightarrow> [] | Some p \<Rightarrow> [p])))"
  by (simp add: Let_def NestedString_fst is_ready_true_fields summary_part_def)

lemma statusLoop_summary:
  "statusLoop cs acc =
     (if list_ex is_ready_true cs then (''ready'', ''Ready=True'')
      else if acc @ summary_parts cs = [] then (''checking'', '''')
      else (''not ready'', Join (acc @ summary_parts cs) '', ''))"
proof (induction cs arbitrary: acc)
  case Nil
  show ?case by (simp add: summary_parts_simps)
next
  case (Cons c cs)
  show ?case
  proof (cases c)
    case (JMap cm)
    show ?thesis
      unfolding JMap statusLoop_JMap
      by (simp add: Cons.IH summary_parts_simps split: option.splits)
  qed (simp_all add: Cons.IH is_ready_true_not_map summary_parts_simps summary_part_not_map)
qed

text \<open>
  Claim C3, as the code has it. For a fetched document with a conditions list:
  when a \<^verbatim>\<open>Ready\<close> condition with status \<^verbatim>\<open>True\<close> exists, the result is the verdict
  \<^verbatim>\<open>ready\<close> with the summary \<^verbatim>\<open>Ready=True\<close>; otherwise the summary joins with \<^verbatim>\<open>", "\<close>,
  in the order of the conditions list, \<^verbatim>\<open>Ready=<status> (<message>)\<close> for each \<^verbatim>\<open>Ready\<close>
  condition (the parenthesis left out for an empty message) and
  \<^verbatim>\<open><type>=<status>: <message>\<close> for each other condition with status \<^verbatim>\<open>False\<close> and a
  non-empty message, with the verdict \<^verbatim>\<open>not ready\<close>; and when no condition qualifies the
  verdict is \<^verbatim>\<open>checking\<close> and the summary is empty. For a document without a conditions
  list the summary is empty too, with the verdict \<^verbatim>\<open>no conditions\<close> or \<^verbatim>\<open>unknown\<close>.
\<close>

theorem getResourceStatus_summary:
  "getResourceStatus (Inr obj) =
     (case conditions_of obj of
        Some cs \<Rightarrow>
          if has_ready_true obj then (''ready'', ''Ready=True'')
          else if summary_parts cs = [] then (''checking'', '''')
          else (''not ready'', Join (summary_parts cs) '', '')
      | None \<Rightarrow>
          (case obj ''status'' of
             Some (JMap st) \<Rightarrow> (''no conditions'', '''')
           | _ \<Rightarrow> (''unknown'', '''')))"
  by (auto simp: getResourceStatus_def NestedMap_def NestedSlice_def has_ready_true_def
      conditions_of_def statusLoop_summary split: option.splits jval.splits)

text \<open>
  The claim as worded fails in two places: a failed condition that precedes the \<^verbatim>\<open>Ready\<close>
  condition in the list is rendered before it, not after; and with no qualifying
  condition the summary string is empty (\<^verbatim>\<open>checking\<close> is the verdict).
\<close>

theorem getResourceStatus_claimed_order_counterexample:
  "getResourceStatus (Inr failing_doc) =
     (''not ready'', ''Healthy=False: probe failed, Ready=False (install failed)'') \<and>
   snd (getResourceStatus (Inr failing_doc)) \<noteq>
     ''Ready=False (install failed), Healthy=False: probe failed'' \<and>
   snd (getResourceStatus (Inr (doc_with_conditions []))) \<noteq> ''checking''"
  by (simp add: probe_defs doc_defs)

theorem getResourceStatus_summary_witness:
  "conditions_of failing_doc =
     Some [cond ''Healthy'' ''False'' ''probe failed'', cond ''Ready'' ''False'' ''install failed''] \<and>
   \<not> has_ready_true failing_doc \<and>
   getResourceStatus (Inr failing_doc) =
     (''not ready'', ''Healthy=False: probe failed, Ready=False (install failed)'') \<and>
   conditions_of (doc_with_conditions []) = Some [] \<and>
   getResourceStatus (Inr (doc_with_conditions [])) = (''checking'', '''') \<and>
   has_ready_true ready_doc \<and>
   getResourceStatus (Inr ready_doc) = (''ready'', ''Ready=True'')"
proof -
  let ?cs = "[cond ''Healthy'' ''False'' ''probe failed'', cond ''Ready'' ''False'' ''install failed'']"
  let ?rs = "[JString ''junk'', cond ''Healthy'' ''False'' ''probe failed'', cond ''Ready'' ''True'' ''ok'']"
  have a: "conditions_of failing_doc = Some ?cs"
    by (simp add: conditions_of_def failing_doc_def doc_with_conditions_def)
  have b: "\<not> has_ready_true failing_doc"
    by (simp add: has_ready_true_def conditions_of_def is_ready_true_def doc_defs)
  have c: "summary_parts ?cs = [''Healthy=False: probe failed'', ''Ready=False (install failed)'']"
    by (simp add: summary_parts_simps summary_part_def field_or_empty_def cond_def)
  have d: "conditions_of (doc_with_conditions []) = Some []"
    by (simp add: conditions_of_def doc_with_conditions_def)
  have e: "\<not> has_ready_true (doc_with_conditions [])"
    by (simp add: has_ready_true_def d)
  have f: "conditions_of ready_doc = Some ?rs"
    by (simp add: conditions_of_def ready_doc_def doc_with_conditions_def)
  have g: "has_ready_true ready_doc"
    by (simp add: has_ready_true_def conditions_of_def is_ready_true_def doc_defs)
  show ?thesis
    using getResourceStatus_summary [of failing_doc]
      getResourceStatus_summary [of "doc_with_conditions []"]
      getResourceStatus_summary [of ready_doc] a b c d e f g
    by (simp add: summary_parts_simps)
qed

lemma readyLoop_normalise_conditions: "readyLoop (normalise_conditions cs) = readyLoop cs"
proof (induction cs rule: normalise_conditions.induct)
  case (2 cm cs)
  then show ?case
    by (simp add: explicit_fields_def NestedString_fst field_or_empty_def)
qed simp_all

lemma statusLoop_normalise_conditions: "statusLoop (normalise_conditions cs) acc = statusLoop cs acc"
proof (induction cs arbitrary: acc rule: normalise_conditions.induct)
  case (2 cm cs)
  then show ?case
    by (simp add: explicit_fields_def NestedString_fst field_or_empty_def Let_def)
qed simp_all

text \<open>
  Claim C10. On a document with a conditions list, whatever its entries are, both probes
  return normally: \<^verbatim>\<open>checkResourceReady\<close> with the nil error, and each with the result it
  gives on the list with the entries that are not maps dropped and every missing or
  non-string \<^verbatim>\<open>type\<close>, \<^verbatim>\<open>status\<close> and \<^verbatim>\<open>message\<close> replaced by the empty string.
\<close>

theorem probes_total_on_malformed_conditions:
  assumes "conditions_of obj = Some cs" and "conditions_of obj' = Some (normalise_conditions cs)"
  shows "checkResourceReady (Inr obj) = (readyLoop cs, None) \<and>
         checkResourceReady (Inr obj') = checkResourceReady (Inr obj) \<and>
         getResourceStatus (Inr obj) = statusLoop cs [] \<and>
         getResourceStatus (Inr obj') = getResourceStatus (Inr obj)"
  using assms
  by (auto simp: probe_defs conditions_of_def readyLoop_normalise_conditions statusLoop_normalise_conditions
      split: option.splits jval.splits)

theorem probes_total_on_malformed_conditions_witness:
  "conditions_of malformed_doc = Some malformed_conditions \<and>
   conditions_of (doc_with_conditions (normalise_conditions malformed_conditions)) =
     Some (normalise_conditions malformed_conditions) \<and>
   checkResourceReady (Inr malformed_doc) = (False, None) \<and>
   checkResourceReady (Inr (doc_with_conditions (normalise_conditions malformed_conditions))) =
     (False, None) \<and>
   getResourceStatus (Inr malformed_doc) =
     (''not ready'', ''Ready=, Healthy=False: probe failed'') \<and>
   getResourceStatus (Inr (doc_with_conditions (normalise_conditions malformed_conditions))) =
     (''not ready'', ''Ready=, Healthy=False: probe failed'')"
proof -
  have a: "conditions_of malformed_doc = Some malformed_conditions"
    by (simp add: conditions_of_def malformed_doc_def doc_with_conditions_def)
  have b: "conditions_of (doc_with_conditions (normalise_conditions malformed_conditions)) =
      Some (normalise_conditions malformed_conditions)"
    by (simp add: conditions_of_def doc_with_conditions_def)
  have c: "readyLoop malformed_conditions = False"
    by (simp add: malformed_conditions_def NestedString_def)
  have d: "statusLoop malformed_conditions [] =
      (''not ready'', ''Ready=, Healthy=False: probe failed'')"
    by (simp add: malformed_conditions_def NestedString_def)
  show ?thesis
    using probes_total_on_malformed_conditions [OF a b] a b c d by simp
qed

section \<open>Event deduplicator and interrupt coordinator: proofs\<close>

lemma hashLoop_range:
  "- 1 \<le> i \<Longrightarrow> i < int (length items) \<Longrightarrow>
   hashLoop items i acc =
     acc @ concat (map triple (rev (drop (length items - 3) (take (nat (i + 1)) items))))"
proof (induction items i acc rule: hashLoop.induct)
  case (1 items i hash)
  show ?case
  proof (cases "i \<ge> 0 \<and> i \<ge> int (length items) - 3")
    case True
    then have lo: "length items - 3 \<le> nat i" and hi: "nat i < length items"
      using "1.prems" by auto
    have "take (nat (i + 1)) items = take (nat i) items @ [items ! nat i]"
      using True hi by (simp add: nat_add_distrib take_Suc_conv_app_nth)
    then have "drop (length items - 3) (take (nat (i + 1)) items) =
        drop (length items - 3) (take (nat i) items) @ [items ! nat i]"
      using lo hi by simp
    moreover have "hashLoop items (i - 1) (hash @ triple (items ! nat i)) =
        (hash @ triple (items ! nat i)) @
        concat (map triple (rev (drop (length items - 3) (take (nat (i - 1 + 1)) items))))"
      using True "1.prems" by (intro "1.IH"[unfolded triple_def[symmetric]]) auto
    ultimately show ?thesis
      using True by (subst hashLoop.simps) (simp add: Let_def triple_def)
  next
    case False
    then have "drop (length items - 3) (take (nat (i + 1)) items) = []"
      using "1.prems" by auto
    moreover have "hashLoop items i hash = hash"
      by (subst hashLoop.simps) (use False in auto)
    ultimately show ?thesis by simp
  qed
qed

lemma hashLoop_fingerprint:
  "hashLoop items (int (length items) - 1) '''' = concat (map triple (take 3 (rev items)))"
  using hashLoop_range [of "int (length items) - 1" items "''''"]
  by (simp add: take_rev)

lemma showLoop_range:
  "- 1 \<le> i \<Longrightarrow> i < int (length items) \<Longrightarrow>
   showLoop items i shown out =
     out @ map notice_of (take (2 - shown) (rev (take (nat (i + 1)) items)))"
proof (induction items i shown out rule: showLoop.induct)
  case (1 items i shown out)
  show ?case
  proof (cases "i \<ge> 0 \<and> shown < 2")
    case True
    then have hi: "nat i < length items"
      using "1.prems" by auto
    have tk: "take (nat (i + 1)) items = take (nat i) items @ [items ! nat i]"
      using True hi by (simp add: nat_add_distrib take_Suc_conv_app_nth)
    have "take (2 - shown) (rev (take (nat (i + 1)) items)) =
        items ! nat i # take (2 - (shown + 1)) (rev (take (nat i) items))"
    proof -
      have "2 - shown = Suc (2 - (shown + 1))"
        using True by arith
      then show ?thesis
        unfolding tk by (simp del: One_nat_def)
    qed
    moreover have "showLoop items (i - 1) (shown + 1) (out @ [notice_of (items ! nat i)]) =
        (out @ [notice_of (items ! nat i)]) @
        map notice_of (take (2 - (shown + 1)) (rev (take (nat (i - 1 + 1)) items)))"
      using "1.IH" [OF True refl refl] True "1.prems" by (simp add: notice_of_def)
    ultimately show ?thesis
      using True by (subst showLoop.simps) (simp add: Let_def notice_of_def)
  next
    case False
    then have "take (2 - shown) (rev (take (nat (i + 1)) items)) = []"
      using "1.prems" by auto
    moreover have "showLoop items i shown out = out"
      by (subst showLoop.simps) (use False in auto)
    ultimately show ?thesis by simp
  qed
qed

lemma showLoop_two_most_recent:
  "showLoop items (int (length items) - 1) 0 [] = map notice_of (take 2 (rev items))"
  using showLoop_range [of "int (length items) - 1" items 0 "[]"]
  by simp

lemma checkEvents_nonempty:
  "items \<noteq> [] \<Longrightarrow>
   checkEvents m (Inr items) =
     (if concat (map triple (take 3 (rev items))) \<noteq> lastHash m
      then (m\<lparr>lastHash := concat (map triple (take 3 (rev items)))\<rparr>,
            map notice_of (take 2 (rev items)))
      else (m, []))"
  by (simp add: checkEvents_def Let_def hashLoop_fingerprint showLoop_two_most_recent)

lemma triple_changed: "one_field_changed e e' \<Longrightarrow> triple e' \<noteq> triple e"
  by (auto simp: one_field_changed_def triple_def)

text \<open>The hash has no delimiter that the fields cannot contain: changing two fields of one
  event at once can leave its text, and so the hash, as it was.\<close>

lemma triple_two_fields_changed:
  "triple \<lparr>Reason = ''a:b'', Type = ''c'', Message = msg\<rparr> =
   triple \<lparr>Reason = ''a'', Type = ''b:c'', Message = msg\<rparr>"
  by (simp add: triple_def)

lemma fingerprint_changed_iff:
  assumes "i < length items" and "length items \<le> i + 3"
  shows "concat (map triple (take 3 (rev (items[i := e'])))) =
           concat (map triple (take 3 (rev items))) \<longleftrightarrow>
         triple e' = triple (items ! i)"
proof -
  define L where "L = take 3 (rev items)"
  define j where "j = length items - 1 - i"
  have j: "j < length L"
    using assms by (auto simp: L_def j_def)
  have nth: "L ! j = items ! i"
    using assms by (simp add: L_def j_def rev_nth)
  have upd: "take 3 (rev (items[i := e'])) = L[j := e']"
    using assms(1) by (simp add: L_def j_def rev_update take_update_swap)
  have "concat (map triple L) =
      concat (map triple (take j L)) @ triple (items ! i) @ concat (map triple (drop (Suc j) L))"
    using id_take_nth_drop [OF j] nth by (metis concat.simps(2) concat_append list.simps(9) map_append)
  moreover have "concat (map triple (L[j := e'])) =
      concat (map triple (take j L)) @ triple e' @ concat (map triple (drop (Suc j) L))"
    using j by (simp add: upd_conv_take_nth_drop)
  ultimately show ?thesis
    by (simp add: upd L_def [symmetric])
qed

text \<open>
  Claim C6. Polling twice with the same outcome of the event list call: the second poll
  prints no notice and leaves \<^verbatim>\<open>lastHash\<close> as the first poll left it.
\<close>

theorem checkEvents_idempotent:
  "checkEvents (fst (checkEvents m r)) r = (fst (checkEvents m r), [])"
  by (cases r) (simp_all add: checkEvents_def Let_def)

theorem checkEvents_idempotent_witness:
  "checkEvents (fst (checkEvents example_monitor (Inr example_events))) (Inr example_events) =
     (fst (checkEvents example_monitor (Inr example_events)), [])"
  using checkEvents_idempotent [of example_monitor "Inr example_events"] by simp

text \<open>
  Claim C9. When the list call fails, or the list is empty, \<^verbatim>\<open>checkEvents\<close> prints no notice
  and leaves the monitor, with its \<^verbatim>\<open>lastHash\<close>, unchanged; the function has no error
  result.
\<close>

theorem checkEvents_swallows_failures:
  "checkEvents m (Inl err) = (m, []) \<and> checkEvents m (Inr []) = (m, [])"
  by (simp add: checkEvents_def)

text \<open>
  Claim C7, as the code has it. Replacing one of the last three events of the list changes
  the hash exactly when the text \<^verbatim>\<open>reason:type:message\<close> of the event changes, which is
  always so when exactly one of the reason, the type and the message is changed. When the
  text changes, the poll that sees the changed list, after a poll that saw the original
  one, stores the new hash and prints the last two events of the changed list (one when
  the list has a single event), newest first. When the text stays the same, the hash
  stays the same and that poll prints nothing.
\<close>

theorem checkEvents_sensitive:
  assumes "i < length items" and "length items \<le> i + 3"
  shows "(one_field_changed (items ! i) e' \<longrightarrow> triple e' \<noteq> triple (items ! i)) \<and>
         (triple e' \<noteq> triple (items ! i) \<longrightarrow>
            hashLoop (items[i := e']) (int (length (items[i := e'])) - 1) '''' \<noteq>
              hashLoop items (int (length items) - 1) '''' \<and>
            lastHash (fst (checkEvents m (Inr items))) =
              hashLoop items (int (length items) - 1) '''' \<and>
            checkEvents (fst (checkEvents m (Inr items))) (Inr (items[i := e'])) =
              (fst (checkEvents m (Inr items))
                 \<lparr>lastHash := hashLoop (items[i := e']) (int (length (items[i := e'])) - 1) ''''\<rparr>,
               map notice_of (take 2 (rev (items[i := e'])))) \<and>
            length (map notice_of (take 2 (rev (items[i := e'])))) = min 2 (length items)) \<and>
         (triple e' = triple (items ! i) \<longrightarrow>
            hashLoop (items[i := e']) (int (length (items[i := e'])) - 1) '''' =
              hashLoop items (int (length items) - 1) '''' \<and>
            checkEvents (fst (checkEvents m (Inr items))) (Inr (items[i := e'])) =
              (fst (checkEvents m (Inr items)), []))"
proof -
  have ne: "items \<noteq> []" "items[i := e'] \<noteq> []"
    using assms(1) by auto
  have h': "hashLoop (items[i := e']) (int (length items) - 1) [] =
      concat (map triple (take 3 (rev (items[i := e']))))"
    using hashLoop_fingerprint [of "items[i := e']"] by simp
  show ?thesis
    using fingerprint_changed_iff [OF assms, of e'] ne triple_changed [of "items ! i" e']
    by (auto simp: checkEvents_nonempty hashLoop_fingerprint h' min.commute)
qed

text \<open>
  The claim as worded covers every change of the reason, the type or the message of an
  event. Changing the reason and the type together can leave the text of the event as it
  was: the hash is kept and the poll of the changed list prints nothing.
\<close>

theorem checkEvents_two_fields_counterexample:
  "Reason collided_event \<noteq> Reason (colliding_events ! 1) \<and>
   Type collided_event \<noteq> Type (colliding_events ! 1) \<and>
   hashLoop (colliding_events[1 := collided_event])
     (int (length (colliding_events[1 := collided_event])) - 1) '''' =
     hashLoop colliding_events (int (length colliding_events) - 1) '''' \<and>
   checkEvents (fst (checkEvents example_monitor (Inr colliding_events)))
     (Inr (colliding_events[1 := collided_event])) =
     (fst (checkEvents example_monitor (Inr colliding_events)), [])"
  by (simp add: colliding_events_def collided_event_def checkEvents_def hashLoop.simps
      showLoop.simps example_monitor_def Let_def)

theorem checkEvents_sensitive_witness:
  "2 < length example_events \<and> length example_events \<le> 2 + 3 \<and>
   one_field_changed (example_events ! 2) changed_event \<and>
   triple changed_event \<noteq> triple (example_events ! 2) \<and>
   snd (checkEvents (fst (checkEvents example_monitor (Inr example_events)))
         (Inr (example_events[2 := changed_event]))) =
     [(''Progressing'', ''retrying'', False), (''HealthCheckFailed'', ''timeout again'', True)] \<and>
   1 < length colliding_events \<and> length colliding_events \<le> 1 + 3 \<and>
   triple collided_event = triple (colliding_events ! 1) \<and>
   snd (checkEvents (fst (checkEvents example_monitor (Inr colliding_events)))
         (Inr (colliding_events[1 := collided_event]))) = []"
proof -
  have a: "2 < length example_events" and b: "length example_events \<le> 2 + 3"
    by (simp_all add: example_events_def)
  have c: "one_field_changed (example_events ! 2) changed_event"
    by (simp add: example_events_def changed_event_def one_field_changed_def eval_nat_numeral)
  have d: "map notice_of (take 2 (rev (example_events[2 := changed_event]))) =
      [(''Progressing'', ''retrying'', False), (''HealthCheckFailed'', ''timeout again'', True)]"
    by (simp add: example_events_def changed_event_def notice_of_def eval_nat_numeral)
  have e: "1 < length colliding_events" and f: "length colliding_events \<le> 1 + 3"
    by (simp_all add: colliding_events_def)
  have g: "triple collided_event = triple (colliding_events ! 1)"
    by (simp add: colliding_events_def collided_event_def triple_def)
  show ?thesis
    using checkEvents_sensitive [OF a b, of changed_event example_monitor]
      checkEvents_sensitive [OF e f, of collided_event example_monitor] a b c d e f g
    by simp
qed

lemma sint_sub_nonneg:
  fixes a b :: "64 word"
  assumes "0 \<le> sint a" and "0 \<le> sint b"
  shows "sint (a - b) = sint a - sint b"
proof -
  have "sint a < 2 ^ 63" "sint b < 2 ^ 63"
    using sint_lt [of a] sint_lt [of b] by simp_all
  then have "- (2 ^ 63) \<le> sint a - sint b" "sint a - sint b < 2 ^ 63"
    using assms by simp_all
  then show ?thesis
    by (simp add: sint_word_ariths signed_take_bit_int_eq_self)
qed

lemma handleSignal_first:
  "interruptCount s = 0 \<Longrightarrow> handleSignal s now = (\<lparr>lastInterruptNano = now, interruptCount = 1\<rparr>, Cancel)"
  by (simp add: handleSignal_def Let_def)

lemma handleSignal_counted:
  "interruptCount s = 1 \<Longrightarrow>
   handleSignal s now =
     (if sint (now - lastInterruptNano s) < 2000000000
      then (\<lparr>lastInterruptNano = now, interruptCount = 2\<rparr>, Exit 130)
      else (\<lparr>lastInterruptNano = now, interruptCount = 1\<rparr>, Cancel))"
  by (simp add: handleSignal_def Let_def interruptWindowNano_def)

lemma handleSignals_state:
  "interruptCount s0 = 0 \<or> interruptCount s0 = 1 \<Longrightarrow> handleSignals s0 ts = Some s \<Longrightarrow>
   (if ts = [] then s = s0 else interruptCount s = 1 \<and> lastInterruptNano s = last ts)"
proof (induction ts arbitrary: s0)
  case Nil
  then show ?case by simp
next
  case (Cons t ts)
  obtain s1 a where step: "handleSignal s0 t = (s1, a)"
    by (cases "handleSignal s0 t")
  with Cons.prems(1) have s1: "a \<noteq> Exit 130 \<longrightarrow> interruptCount s1 = 1 \<and> lastInterruptNano s1 = t"
    and a: "a = Cancel \<or> a = Exit 130"
    by (auto simp: handleSignal_first handleSignal_counted split: if_splits)
  from Cons.prems(2) step a have run: "a = Cancel" "handleSignals s1 ts = Some s"
    by (auto split: interrupt_action.splits)
  with s1 have inv: "interruptCount s1 = 1" "lastInterruptNano s1 = t"
    by simp_all
  from Cons.IH [OF _ run(2)] inv show ?case
    by (auto split: if_splits)
qed

text \<open>
  Claim C2. After any sequence of signals that has not ended the process, with clock
  readings at or after the epoch: the next signal sets the count to 1, records its
  timestamp and only cancels the context when no signal was recorded before or at least
  two seconds have passed since the last one; and it raises the count to 2 and exits with
  code 130 when less than two seconds have passed since the last one.
\<close>

theorem interrupt_window_law:
  assumes "handleSignals initial_interrupt_state ts = Some s"
    and "\<forall>t \<in> set (now # ts). 0 \<le> sint t"
  shows "(ts = [] \<or> 2000000000 \<le> sint now - sint (last ts) \<longrightarrow>
            handleSignal s now = (\<lparr>lastInterruptNano = now, interruptCount = 1\<rparr>, Cancel)) \<and>
         (ts \<noteq> [] \<and> sint now - sint (last ts) < 2000000000 \<longrightarrow>
            handleSignal s now = (\<lparr>lastInterruptNano = now, interruptCount = 2\<rparr>, Exit 130))"
proof (cases "ts = []")
  case True
  with assms(1) have "interruptCount s = 0"
    by (auto simp: initial_interrupt_state_def)
  then show ?thesis
    using True by (simp add: handleSignal_first)
next
  case False
  have st: "interruptCount s = 1" "lastInterruptNano s = last ts"
    using handleSignals_state [OF _ assms(1)] False
    by (simp_all add: initial_interrupt_state_def)
  have "sint (now - last ts) = sint now - sint (last ts)"
    using assms(2) False by (intro sint_sub_nonneg) auto
  then show ?thesis
    using False st by (simp add: handleSignal_counted)
qed

theorem interrupt_window_law_witness:
  "handleSignals initial_interrupt_state [] = Some initial_interrupt_state \<and>
   handleSignal initial_interrupt_state 5000000000 =
     (\<lparr>lastInterruptNano = 5000000000, interruptCount = 1\<rparr>, Cancel) \<and>
   handleSignals initial_interrupt_state [5000000000] =
     Some \<lparr>lastInterruptNano = 5000000000, interruptCount = 1\<rparr> \<and>
   0 \<le> sint (5000000000 :: 64 word) \<and> 0 \<le> sint (6000000000 :: 64 word) \<and>
   sint (6000000000 :: 64 word) - sint (last [5000000000 :: 64 word]) < 2000000000 \<and>
   handleSignal \<lparr>lastInterruptNano = 5000000000, interruptCount = 1\<rparr> 6000000000 =
     (\<lparr>lastInterruptNano = 6000000000, interruptCount = 2\<rparr>, Exit 130) \<and>
   0 \<le> sint (7000000000 :: 64 word) \<and>
   2000000000 \<le> sint (7000000000 :: 64 word) - sint (last [5000000000 :: 64 word]) \<and>
   handleSignal \<lparr>lastInterruptNano = 5000000000, interruptCount = 1\<rparr> 7000000000 =
     (\<lparr>lastInterruptNano = 7000000000, interruptCount = 1\<rparr>, Cancel)"
proof -
  let ?s1 = "\<lparr>lastInterruptNano = 5000000000, interruptCount = 1\<rparr>"
  have r0: "handleSignals initial_interrupt_state [] = Some initial_interrupt_state"
    by simp
  have r1: "handleSignals initial_interrupt_state [5000000000] = Some ?s1"
    by (simp add: handleSignal_def initial_interrupt_state_def interruptWindowNano_def Let_def)
  have n0: "\<forall>t \<in> set [5000000000 :: 64 word]. 0 \<le> sint t"
    and n1: "\<forall>t \<in> set [6000000000, 5000000000 :: 64 word]. 0 \<le> sint t"
    and n2: "\<forall>t \<in> set [7000000000, 5000000000 :: 64 word]. 0 \<le> sint t"
    by simp_all
  show ?thesis
    using interrupt_window_law [OF r0 n0] interrupt_window_law [OF r1 n1]
      interrupt_window_law [OF r1 n2] r0 r1 n1 n2
    by simp
qed

section \<open>Resource locator and wait engine: proofs\<close>

lemma after_simps: "fst (after effs r) = effs @ fst r" "snd (after effs r) = snd r"
  by (simp_all add: after_def)

lemma waitLoop_late:
  "t1 > dl \<Longrightarrow>
   waitLoop f m gvr st dl lst (FastTick t1 c t2 t3 # rest) =
     (ApiGet SummaryProbe gvr #
      (if snd (getResourceStatus (c gvr)) \<noteq> ''''
       then [PrintStatus (''Timeout reached. Last known status: '' @ snd (getResourceStatus (c gvr)))]
       else []),
      Returned (Some (TimeoutError (kind m))))"
  by (simp add: split_beta)

lemma waitLoop_probe_error:
  "\<not> t1 > dl \<Longrightarrow> snd (checkResourceReady (c gvr)) = Some e \<Longrightarrow>
   waitLoop f m gvr st dl lst (FastTick t1 c t2 t3 # rest) =
     (if t2 - lst > 10 * Second then
        after [ApiGet ReadyProbe gvr,
               PrintStatus (''Unable to check status: '' @ errorText f e @ '' (will retry)'')]
          (waitLoop f m gvr st dl t3 rest)
      else after [ApiGet ReadyProbe gvr] (waitLoop f m gvr st dl lst rest))"
  by (simp add: split_beta)

lemma waitLoop_probe_ok:
  "\<not> t1 > dl \<Longrightarrow> snd (checkResourceReady (c gvr)) = None \<Longrightarrow>
   waitLoop f m gvr st dl lst (FastTick t1 c t2 t3 # rest) =
     (if fst (checkResourceReady (c gvr)) then ([ApiGet ReadyProbe gvr], Returned None)
      else after [ApiGet ReadyProbe gvr] (waitLoop f m gvr st dl lst rest))"
  by (simp add: split_beta)

lemma waitLoop_status:
  "waitLoop f m gvr st dl lst (StatusTick t1 t2 c # rest) =
     after (ApiGet SummaryProbe gvr # status_lines f (t1 - st) (dl - t2) (getResourceStatus (c gvr)))
       (waitLoop f m gvr st dl lst rest)"
  by (simp add: split_beta status_lines_def Let_def)

lemma status_lines_no_report: "filter is_error_report (status_lines f a b sc) = []"
  by (simp add: status_lines_def is_error_report_def)

lemma status_lines_no_get: "ApiGet p g \<notin> set (status_lines f a b sc)"
  by (simp add: status_lines_def)

declare waitLoop.simps(3) [simp del] waitLoop.simps(4) [simp del]

lemma waitLoop_append:
  "snd (waitLoop f m gvr st dl lst pre) = StillWaiting \<Longrightarrow>
   \<exists>lst'. waitLoop f m gvr st dl lst (pre @ rest) =
     after (fst (waitLoop f m gvr st dl lst pre)) (waitLoop f m gvr st dl lst' rest)"
proof (induction pre arbitrary: lst)
  case Nil
  show ?case by (auto simp: after_def)
next
  case (Cons t pre)
  show ?case
  proof (cases t)
    case (CtxDone e)
    with Cons.prems show ?thesis by simp
  next
    case (StatusTick t1 t2 c)
    with Cons.prems have "snd (waitLoop f m gvr st dl lst pre) = StillWaiting"
      by (simp add: waitLoop_status after_simps)
    from Cons.IH [OF this] show ?thesis
      unfolding StatusTick by (auto simp: waitLoop_status after_def)
  next
    case (FastTick t1 c t2 t3)
    show ?thesis
    proof (cases "t1 > dl")
      case True
      with Cons.prems FastTick show ?thesis by (simp add: waitLoop_late)
    next
      case late: False
      show ?thesis
      proof (cases "snd (checkResourceReady (c gvr))")
        case None
        with Cons.prems late FastTick
        have nr: "\<not> fst (checkResourceReady (c gvr))"
          and sw: "snd (waitLoop f m gvr st dl lst pre) = StillWaiting"
          by (auto simp: waitLoop_probe_ok after_simps split: if_splits)
        from Cons.IH [OF sw] show ?thesis
          unfolding FastTick using late None nr
          by (auto simp: waitLoop_probe_ok after_def)
      next
        case (Some e)
        show ?thesis
        proof (cases "t2 - lst > 10 * Second")
          case True
          with Cons.prems late FastTick Some
          have sw: "snd (waitLoop f m gvr st dl t3 pre) = StillWaiting"
            by (simp add: waitLoop_probe_error after_simps)
          from Cons.IH [OF sw] show ?thesis
            unfolding FastTick using late Some True
            by (auto simp: waitLoop_probe_error after_def)
        next
          case False
          with Cons.prems late FastTick Some
          have sw: "snd (waitLoop f m gvr st dl lst pre) = StillWaiting"
            by (simp add: waitLoop_probe_error after_simps)
          from Cons.IH [OF sw] show ?thesis
            unfolding FastTick using late Some False
            by (auto simp: waitLoop_probe_error after_def)
        qed
      qed
    qed
  qed
qed

lemma waitLoop_fast_first:
  "\<not> t1 > dl \<Longrightarrow>
   \<exists>effs r. waitLoop f m gvr st dl lst (FastTick t1 c t2 t3 # rest) = (ApiGet ReadyProbe gvr # effs, r)"
  by (cases "snd (checkResourceReady (c gvr))")
    (auto simp: waitLoop_probe_ok waitLoop_probe_error after_def)

lemma WaitForReady_resolved:
  "snd (getResourceGVR m c0) = Inr gvr \<Longrightarrow>
   WaitForReady f m timeout ta tb c0 tc ticks =
     after (fst (getResourceGVR m c0)) (waitLoop f m gvr tb (ta + timeout) tc ticks)"
  by (simp add: WaitForReady_def split_beta Let_def)

lemma WaitForReady_unresolved:
  "snd (getResourceGVR m c0) = Inl err \<Longrightarrow>
   WaitForReady f m timeout ta tb c0 tc ticks = (fst (getResourceGVR m c0), Returned (Some err))"
  by (simp add: WaitForReady_def split_beta Let_def)

text \<open>
  Claim C4, as the code has it. On a fast tick that the loop reaches with the deadline
  passed, \<^verbatim>\<open>WaitForReady\<close> makes exactly one further \<^verbatim>\<open>Get\<close>, the one of \<^verbatim>\<open>getResourceStatus\<close>,
  and no readiness probe; it prints \<^verbatim>\<open>Timeout reached. Last known status: <summary>\<close> when
  the summary is not empty, and nothing when it is empty; and it returns the timeout
  error. On a fast tick that the loop reaches with the deadline not passed, the first
  thing it does is the readiness probe: the deadline is checked before the probe.
\<close>

theorem WaitForReady_deadline_first:
  assumes "snd (WaitForReady f m timeout ta tb c0 tc pre) = StillWaiting"
    and "snd (getResourceGVR m c0) = Inr gvr"
  shows "(t1 > ta + timeout \<longrightarrow>
            WaitForReady f m timeout ta tb c0 tc (pre @ FastTick t1 c t2 t3 # rest) =
              (fst (WaitForReady f m timeout ta tb c0 tc pre) @
               ApiGet SummaryProbe gvr #
               (if snd (getResourceStatus (c gvr)) \<noteq> ''''
                then [PrintStatus (''Timeout reached. Last known status: '' @
                                   snd (getResourceStatus (c gvr)))]
                else []),
               Returned (Some (TimeoutError (kind m))))) \<and>
         (\<not> t1 > ta + timeout \<longrightarrow>
            (\<exists>effs r. WaitForReady f m timeout ta tb c0 tc (pre @ FastTick t1 c t2 t3 # rest) =
               (fst (WaitForReady f m timeout ta tb c0 tc pre) @ ApiGet ReadyProbe gvr # effs, r)))"
proof -
  let ?dl = "ta + timeout"
  have sw: "snd (waitLoop f m gvr tb ?dl tc pre) = StillWaiting"
    using assms by (simp add: WaitForReady_resolved after_simps)
  obtain lst' where app: "waitLoop f m gvr tb ?dl tc (pre @ FastTick t1 c t2 t3 # rest) =
      after (fst (waitLoop f m gvr tb ?dl tc pre))
        (waitLoop f m gvr tb ?dl lst' (FastTick t1 c t2 t3 # rest))"
    using waitLoop_append [OF sw] by blast
  show ?thesis
  proof (cases "t1 > ?dl")
    case True
    then show ?thesis
      using assms(2) app by (simp add: WaitForReady_resolved waitLoop_late after_def)
  next
    case False
    then obtain effs r where "waitLoop f m gvr tb ?dl lst' (FastTick t1 c t2 t3 # rest) =
        (ApiGet ReadyProbe gvr # effs, r)"
      using waitLoop_fast_first by blast
    then show ?thesis
      using False assms(2) app by (simp add: WaitForReady_resolved after_def)
  qed
qed

lemmas run_defs = WaitForReady_def getResourceGVR_def example_monitor_def plain_formatting_def
  served_def unreachable_def legacy_only_def gvrV2_def gvrV2beta1_def after_def Second_def
  waitLoop.simps(3) waitLoop.simps(4)

text \<open>
  The claim as worded says that the timeout line is printed. For a resource without a
  status the summary is empty and the timeout tick prints nothing.
\<close>

theorem WaitForReady_timeout_silent_counterexample:
  "WaitForReady plain_formatting example_monitor 5 0 0 (served Map.empty) 0
     [FastTick 10 (served Map.empty) 10 10] =
   ([ApiGet ResolveProbe gvrV2, ApiGet SummaryProbe gvrV2],
    Returned (Some (TimeoutError ''helmrelease'')))"
  by (simp add: run_defs probe_defs)

theorem WaitForReady_deadline_first_witness:
  "snd (WaitForReady plain_formatting example_monitor 5 0 0 (served failing_doc) 0 []) = StillWaiting \<and>
   snd (getResourceGVR example_monitor (served failing_doc)) = Inr gvrV2 \<and>
   (10::int) > 0 + 5 \<and>
   WaitForReady plain_formatting example_monitor 5 0 0 (served failing_doc) 0
     ([] @ FastTick 10 (served failing_doc) 10 10 # []) =
     ([ApiGet ResolveProbe gvrV2, ApiGet SummaryProbe gvrV2,
       PrintStatus (''Timeout reached. Last known status: '' @
                    ''Healthy=False: probe failed, Ready=False (install failed)'')],
      Returned (Some (TimeoutError ''helmrelease''))) \<and>
   \<not> (3::int) > 0 + 5 \<and>
   fst (WaitForReady plain_formatting example_monitor 5 0 0 (served failing_doc) 0
          ([] @ FastTick 3 (served failing_doc) 3 3 # [])) =
     [ApiGet ResolveProbe gvrV2, ApiGet ReadyProbe gvrV2]"
proof -
  have a: "snd (WaitForReady plain_formatting example_monitor 5 0 0 (served failing_doc) 0 []) =
      StillWaiting"
    by (simp add: run_defs)
  have b: "snd (getResourceGVR example_monitor (served failing_doc)) = Inr gvrV2"
    by (simp add: run_defs)
  have c: "getResourceStatus (served failing_doc gvrV2) =
      (''not ready'', ''Healthy=False: probe failed, Ready=False (install failed)'')"
    by (simp add: served_def probe_defs doc_defs)
  have d: "fst (WaitForReady plain_formatting example_monitor 5 0 0 (served failing_doc) 0
          ([] @ FastTick 3 (served failing_doc) 3 3 # [])) =
     [ApiGet ResolveProbe gvrV2, ApiGet ReadyProbe gvrV2]"
    by (simp add: run_defs probe_defs doc_defs)
  have e: "fst (WaitForReady plain_formatting example_monitor 5 0 0 (served failing_doc) 0 []) =
      [ApiGet ResolveProbe gvrV2]"
    by (simp add: run_defs)
  show ?thesis
    using WaitForReady_deadline_first [OF a b, of 10 "served failing_doc" 10 10 "[]"] a b c d e
    by (simp add: example_monitor_def)
qed

lemma waitLoop_gets:
  "ApiGet p g \<in> set (fst (waitLoop f m gvr st dl lst ticks)) \<Longrightarrow> g = gvr \<and> p \<noteq> ResolveProbe"
proof (induction ticks arbitrary: lst)
  case Nil
  then show ?case by simp
next
  case (Cons t ticks)
  show ?case
  proof (cases t)
    case (CtxDone e)
    with Cons.prems show ?thesis by simp
  next
    case (StatusTick t1 t2 c)
    with Cons show ?thesis
      by (auto simp: waitLoop_status after_simps status_lines_no_get)
  next
    case (FastTick t1 c t2 t3)
    show ?thesis
    proof (cases "t1 > dl")
      case True
      with Cons.prems FastTick show ?thesis
        by (auto simp: waitLoop_late split: if_splits)
    next
      case False
      with Cons FastTick show ?thesis
        by (cases "snd (checkResourceReady (c gvr))")
          (auto simp: waitLoop_probe_ok waitLoop_probe_error after_simps split: if_splits)
    qed
  qed
qed

text \<open>
  Claim C5. For the kind \<^verbatim>\<open>helmrelease\<close>, \<^verbatim>\<open>getResourceGVR\<close> makes one \<^verbatim>\<open>Get\<close> against the v2
  coordinates and returns them when it succeeds, and the v2beta1 coordinates, with no
  error, when it fails. A kind that is not recognised gives the unsupported-kind error,
  with no \<^verbatim>\<open>Get\<close>, and \<^verbatim>\<open>WaitForReady\<close> returns that error at once. When the coordinates are
  resolved, the run of \<^verbatim>\<open>WaitForReady\<close> is the resolution followed by probes that all
  use the chosen coordinates, none of them a resolution.
\<close>

theorem getResourceGVR_resolution:
  "(kind m = ''helmrelease'' \<longrightarrow>
      getResourceGVR m c0 =
        ([ApiGet ResolveProbe gvrV2],
         Inr (case c0 gvrV2 of Inr obj \<Rightarrow> gvrV2 | Inl err \<Rightarrow> gvrV2beta1))) \<and>
   (kind m \<notin> known_kinds \<longrightarrow>
      getResourceGVR m c0 = ([], Inl (UnsupportedKind (kind m))) \<and>
      WaitForReady f m timeout ta tb c0 tc ticks = ([], Returned (Some (UnsupportedKind (kind m))))) \<and>
   (\<forall>gvr. snd (getResourceGVR m c0) = Inr gvr \<longrightarrow>
      (\<exists>effs. fst (WaitForReady f m timeout ta tb c0 tc ticks) = fst (getResourceGVR m c0) @ effs \<and>
              (\<forall>p g. ApiGet p g \<in> set effs \<longrightarrow> g = gvr \<and> p \<noteq> ResolveProbe)))"
proof (intro conjI impI allI)
  assume "kind m = ''helmrelease''"
  then show "getResourceGVR m c0 =
      ([ApiGet ResolveProbe gvrV2], Inr (case c0 gvrV2 of Inr obj \<Rightarrow> gvrV2 | Inl err \<Rightarrow> gvrV2beta1))"
    by (simp add: getResourceGVR_def split: sum.splits)
next
  assume "kind m \<notin> known_kinds"
  then show u: "getResourceGVR m c0 = ([], Inl (UnsupportedKind (kind m)))"
    by (simp add: getResourceGVR_def known_kinds_def)
  then show "WaitForReady f m timeout ta tb c0 tc ticks =
      ([], Returned (Some (UnsupportedKind (kind m))))"
    using WaitForReady_unresolved [of m c0 "UnsupportedKind (kind m)"] by simp
next
  fix gvr
  assume "snd (getResourceGVR m c0) = Inr gvr"
  then show "\<exists>effs. fst (WaitForReady f m timeout ta tb c0 tc ticks) = fst (getResourceGVR m c0) @ effs \<and>
      (\<forall>p g. ApiGet p g \<in> set effs \<longrightarrow> g = gvr \<and> p \<noteq> ResolveProbe)"
    using waitLoop_gets [of _ _ f m gvr tb "ta + timeout" tc ticks]
    by (intro exI [of _ "fst (waitLoop f m gvr tb (ta + timeout) tc ticks)"])
      (simp add: WaitForReady_resolved after_simps)
qed

theorem getResourceGVR_resolution_witness:
  "kind example_monitor = ''helmrelease'' \<and>
   getResourceGVR example_monitor (legacy_only ready_doc) =
     ([ApiGet ResolveProbe gvrV2], Inr gvrV2beta1) \<and>
   getResourceGVR example_monitor (served ready_doc) = ([ApiGet ResolveProbe gvrV2], Inr gvrV2) \<and>
   kind (example_monitor\<lparr>kind := ''source''\<rparr>) \<notin> known_kinds \<and>
   WaitForReady plain_formatting (example_monitor\<lparr>kind := ''source''\<rparr>) 5 0 0 unreachable 0 [] =
     ([], Returned (Some (UnsupportedKind ''source''))) \<and>
   WaitForReady plain_formatting example_monitor 5 0 0 (legacy_only ready_doc) 0
     [FastTick 3 (legacy_only ready_doc) 3 3] =
     ([ApiGet ResolveProbe gvrV2, ApiGet ReadyProbe gvrV2beta1], Returned None)"
proof -
  have a: "kind example_monitor = ''helmrelease''"
    by (simp add: example_monitor_def)
  have b: "kind (example_monitor\<lparr>kind := ''source''\<rparr>) \<notin> known_kinds"
    by (simp add: known_kinds_def)
  have c: "legacy_only ready_doc gvrV2 = Inl ''not found''"
    "served ready_doc gvrV2 = Inr ready_doc"
    by (simp_all add: legacy_only_def served_def gvrV2_def gvrV2beta1_def)
  have d: "WaitForReady plain_formatting example_monitor 5 0 0 (legacy_only ready_doc) 0
     [FastTick 3 (legacy_only ready_doc) 3 3] =
     ([ApiGet ResolveProbe gvrV2, ApiGet ReadyProbe gvrV2beta1], Returned None)"
    by (simp add: run_defs probe_defs doc_defs)
  show ?thesis
    using getResourceGVR_resolution [of example_monitor "legacy_only ready_doc"]
      getResourceGVR_resolution [of example_monitor "served ready_doc"]
      getResourceGVR_resolution [of "example_monitor\<lparr>kind := ''source''\<rparr>" unreachable
        plain_formatting 5 0 0 0 "[]"]
      a b c d
    by simp
qed

lemma is_error_report_simps:
  "is_error_report (ApiGet p g) = False"
  "is_error_report (PrintStatus s) = prefix ''Unable to check status: '' s"
  by (simp_all add: is_error_report_def)

lemma waitLoop_outcome_when_probe_fails:
  "list_all (probe_fails gvr) ticks \<Longrightarrow>
   snd (waitLoop f m gvr st dl lst ticks) = StillWaiting \<or>
   (snd (waitLoop f m gvr st dl lst ticks) = Returned (Some (TimeoutError (kind m))) \<and>
    list_ex (deadline_passed dl) ticks) \<or>
   (\<exists>e. snd (waitLoop f m gvr st dl lst ticks) = Returned (Some (ContextError e)) \<and>
        CtxDone e \<in> set ticks)"
proof (induction ticks arbitrary: lst)
  case Nil
  show ?case by simp
next
  case (Cons t ticks)
  then have rest: "list_all (probe_fails gvr) ticks"
    by simp
  show ?case
  proof (cases t)
    case (CtxDone e)
    then show ?thesis by simp
  next
    case (StatusTick t1 t2 c)
    then show ?thesis
      using Cons.IH [OF rest, of lst]
      by (auto simp: waitLoop_status after_simps deadline_passed_def)
  next
    case (FastTick t1 c t2 t3)
    show ?thesis
    proof (cases "t1 > dl")
      case True
      with FastTick show ?thesis
        by (simp add: waitLoop_late deadline_passed_def)
    next
      case False
      from Cons.prems FastTick obtain e where e: "snd (checkResourceReady (c gvr)) = Some e"
        by (auto simp: probe_fails_def)
      show ?thesis
        using Cons.IH [OF rest, of lst] Cons.IH [OF rest, of t3] False e
        unfolding FastTick
        by (auto simp: waitLoop_probe_error after_simps)
    qed
  qed
qed

lemma no_report_after_mark:
  "list_all (in_window T) ticks \<Longrightarrow> T \<le> lst \<Longrightarrow>
   filter is_error_report (fst (waitLoop f m gvr st dl lst ticks)) = []"
proof (induction ticks arbitrary: lst)
  case Nil
  show ?case by simp
next
  case (Cons t ticks)
  then have rest: "list_all (in_window T) ticks"
    by simp
  note IH = Cons.IH [OF rest Cons.prems(2)]
  show ?case
  proof (cases t)
    case (CtxDone e)
    then show ?thesis by simp
  next
    case (StatusTick t1 t2 c)
    then show ?thesis
      using IH by (simp add: waitLoop_status after_simps status_lines_no_report is_error_report_simps)
  next
    case (FastTick t1 c t2 t3)
    show ?thesis
    proof (cases "t1 > dl")
      case True
      with FastTick show ?thesis
        by (simp add: waitLoop_late is_error_report_simps)
    next
      case late: False
      show ?thesis
      proof (cases "snd (checkResourceReady (c gvr))")
        case None
        then show ?thesis
          using IH late unfolding FastTick
          by (simp add: waitLoop_probe_ok after_simps is_error_report_simps)
      next
        case (Some e)
        from Cons.prems FastTick have "\<not> t2 - lst > 10 * Second"
          by (simp add: in_window_def)
        then show ?thesis
          using IH late Some unfolding FastTick
          by (simp add: waitLoop_probe_error after_simps is_error_report_simps)
      qed
    qed
  qed
qed

lemma at_most_one_report:
  "list_all (in_window T) ticks \<Longrightarrow>
   length (filter is_error_report (fst (waitLoop f m gvr st dl lst ticks))) \<le> 1"
proof (induction ticks arbitrary: lst)
  case Nil
  show ?case by simp
next
  case (Cons t ticks)
  then have rest: "list_all (in_window T) ticks"
    by simp
  note IH = Cons.IH [OF rest]
  show ?case
  proof (cases t)
    case (CtxDone e)
    then show ?thesis by simp
  next
    case (StatusTick t1 t2 c)
    then show ?thesis
      using IH by (simp add: waitLoop_status after_simps status_lines_no_report is_error_report_simps)
  next
    case (FastTick t1 c t2 t3)
    show ?thesis
    proof (cases "t1 > dl")
      case True
      with FastTick show ?thesis
        by (simp add: waitLoop_late is_error_report_simps)
    next
      case late: False
      show ?thesis
      proof (cases "snd (checkResourceReady (c gvr))")
        case None
        then show ?thesis
          using IH late unfolding FastTick
          by (simp add: waitLoop_probe_ok after_simps is_error_report_simps)
      next
        case (Some e)
        from Cons.prems FastTick have "T \<le> t3"
          by (simp add: in_window_def)
        then have "filter is_error_report (fst (waitLoop f m gvr st dl t3 ticks)) = []"
          using no_report_after_mark [OF rest] by simp
        then show ?thesis
          using IH [of lst] late Some unfolding FastTick
          by (simp add: waitLoop_probe_error after_simps is_error_report_simps)
      qed
    qed
  qed
qed

lemma status_ticks_irrelevant:
  "filter is_error_report (fst (waitLoop f m gvr st dl lst (filter (\<lambda>t. \<not> is_status_tick t) ticks))) =
     filter is_error_report (fst (waitLoop f m gvr st dl lst ticks)) \<and>
   snd (waitLoop f m gvr st dl lst (filter (\<lambda>t. \<not> is_status_tick t) ticks)) =
     snd (waitLoop f m gvr st dl lst ticks)"
proof (induction ticks arbitrary: lst)
  case Nil
  show ?case by simp
next
  case (Cons t ticks)
  show ?case
  proof (cases t)
    case (CtxDone e)
    then show ?thesis by (simp add: is_status_tick_def)
  next
    case (StatusTick t1 t2 c)
    then show ?thesis
      using Cons.IH [of lst]
      by (simp add: is_status_tick_def waitLoop_status after_simps status_lines_no_report
          is_error_report_simps)
  next
    case (FastTick t1 c t2 t3)
    show ?thesis
    proof (cases "t1 > dl")
      case True
      with FastTick show ?thesis
        by (simp add: waitLoop_late is_status_tick_def)
    next
      case late: False
      show ?thesis
      proof (cases "snd (checkResourceReady (c gvr))")
        case None
        then show ?thesis
          using Cons.IH [of lst] late unfolding FastTick
          by (simp add: waitLoop_probe_ok after_simps is_status_tick_def)
      next
        case (Some e)
        show ?thesis
          using Cons.IH [of lst] Cons.IH [of t3] late Some unfolding FastTick
          by (simp add: waitLoop_probe_error after_simps is_status_tick_def)
      qed
    qed
  qed
qed

text \<open>
  Claim C8. On a fast tick before the deadline on which \<^verbatim>\<open>checkResourceReady\<close> returns an
  error, the loop goes on with the rest of the run; the line
  \<^verbatim>\<open>Unable to check status: ... (will retry)\<close> is printed only when more than ten seconds
  have passed since \<^verbatim>\<open>lastStatusTime\<close>, which is then set. A run in which every readiness
  probe fails is still waiting at its end, unless a fast tick found the deadline passed
  (timeout error) or the context was done (context error). In a run whose clock readings
  lie within ten seconds, the line is printed at most once. The error lines printed are
  the same with the iterations of the status timer taken out of the run.
\<close>

theorem probe_error_never_ends_wait:
  "(\<not> t1 > dl \<and> snd (checkResourceReady (c gvr)) = Some e \<longrightarrow>
      waitLoop f m gvr st dl lst (FastTick t1 c t2 t3 # rest) =
        after
          (ApiGet ReadyProbe gvr #
           (if t2 - lst > 10 * Second
            then [PrintStatus (''Unable to check status: '' @ errorText f e @ '' (will retry)'')]
            else []))
          (waitLoop f m gvr st dl (if t2 - lst > 10 * Second then t3 else lst) rest)) \<and>
   (list_all (probe_fails gvr) ticks \<longrightarrow>
      snd (waitLoop f m gvr st dl lst ticks) = StillWaiting \<or>
      (snd (waitLoop f m gvr st dl lst ticks) = Returned (Some (TimeoutError (kind m))) \<and>
       list_ex (deadline_passed dl) ticks) \<or>
      (\<exists>e. snd (waitLoop f m gvr st dl lst ticks) = Returned (Some (ContextError e)) \<and>
           CtxDone e \<in> set ticks)) \<and>
   (list_all (in_window T) ticks \<longrightarrow>
      length (filter is_error_report (fst (waitLoop f m gvr st dl lst ticks))) \<le> 1) \<and>
   filter is_error_report
     (fst (waitLoop f m gvr st dl lst (filter (\<lambda>t. \<not> is_status_tick t) ticks))) =
     filter is_error_report (fst (waitLoop f m gvr st dl lst ticks))"
  using waitLoop_outcome_when_probe_fails [of gvr ticks f m st dl lst]
    at_most_one_report [of T ticks f m gvr st dl lst]
    status_ticks_irrelevant [of f m gvr st dl lst ticks]
  by (simp add: waitLoop_probe_error)

theorem probe_error_never_ends_wait_witness:
  "\<not> 1 * Second > 300 * Second \<and>
   snd (checkResourceReady (unreachable gvrV2)) = Some (GetError ''connection refused'') \<and>
   list_all (probe_fails gvrV2) failing_ticks \<and>
   list_all (in_window (11 * Second)) failing_ticks \<and>
   waitLoop plain_formatting example_monitor gvrV2 0 (300 * Second) 0 failing_ticks =
     ([ApiGet ReadyProbe gvrV2, PrintStatus ''Unable to check status: error (will retry)'',
       ApiGet SummaryProbe gvrV2, ApiGet ReadyProbe gvrV2],
      StillWaiting) \<and>
   length (filter is_error_report
     (fst (waitLoop plain_formatting example_monitor gvrV2 0 (300 * Second) 0 failing_ticks))) = 1"
proof -
  have a: "\<not> 1 * Second > 300 * Second"
    by (simp add: Second_def)
  have b: "snd (checkResourceReady (unreachable gvrV2)) = Some (GetError ''connection refused'')"
    by (simp add: unreachable_def checkResourceReady_def)
  have c: "list_all (probe_fails gvrV2) failing_ticks"
    by (simp add: failing_ticks_def probe_fails_def unreachable_def checkResourceReady_def)
  have d: "list_all (in_window (11 * Second)) failing_ticks"
    by (simp add: failing_ticks_def in_window_def Second_def)
  have e: "waitLoop plain_formatting example_monitor gvrV2 0 (300 * Second) 0 failing_ticks =
     ([ApiGet ReadyProbe gvrV2, PrintStatus ''Unable to check status: error (will retry)'',
       ApiGet SummaryProbe gvrV2, ApiGet ReadyProbe gvrV2],
      StillWaiting)"
    by (simp add: failing_ticks_def run_defs probe_defs)
  have f: "length (filter is_error_report
     [ApiGet ReadyProbe gvrV2, PrintStatus ''Unable to check status: error (will retry)'',
       ApiGet SummaryProbe gvrV2, ApiGet ReadyProbe gvrV2]) = 1"
    by (simp add: is_error_report_def)
  show ?thesis
    using probe_error_never_ends_wait [of "1 * Second" "300 * Second" unreachable gvrV2
        "GetError ''connection refused''" plain_formatting example_monitor 0 0 "11 * Second"
        "11 * Second" "tl failing_ticks" failing_ticks "11 * Second"]
      a b c d e f
    by simp
qed


end
